theory Spec2Isabelle
  imports Complex_Main
begin

section \<open>Python primitives used by the editor\<close>

text \<open>
  The editor of \<^verbatim>\<open>text_autocomplete.py\<close> keeps its buffer in a Python list of strings and
  its cursor in two unbounded integers. Indexing a list or a string out of range raises
  \<^verbatim>\<open>IndexError\<close>; a negative index counts from the end; slices never raise and clamp.
  These rules are written out here, so that every raise of the source is a value of the model.
  Strings are lists of characters, integers are \<^typ>\<open>int\<close>, clock readings
  (\<^verbatim>\<open>time.time()\<close>, a float in seconds) are idealised as \<^typ>\<open>real\<close>.
\<close>

datatype error = IndexError

definition ebind :: "error + 'a \<Rightarrow> ('a \<Rightarrow> error + 'b) \<Rightarrow> error + 'b" where
  "ebind m f = (case m of Inl err \<Rightarrow> Inl err | Inr v \<Rightarrow> f v)"

definition norm_index :: "nat \<Rightarrow> int \<Rightarrow> nat option" where
  \<comment> \<open>the position that index \<open>i\<close> names in a sequence of the given length, if any\<close>
  "norm_index len i =
     (if - int len \<le> i \<and> i < 0 then Some (nat (i + int len))
      else if 0 \<le> i \<and> i < int len then Some (nat i)
      else None)"

definition py_getitem :: "'a list \<Rightarrow> int \<Rightarrow> error + 'a" where
  \<comment> \<open>\<^verbatim>\<open>xs[i]\<close>\<close>
  "py_getitem xs i =
     (case norm_index (length xs) i of Some k \<Rightarrow> Inr (xs ! k) | None \<Rightarrow> Inl IndexError)"

definition py_setitem :: "'a list \<Rightarrow> int \<Rightarrow> 'a \<Rightarrow> error + 'a list" where
  \<comment> \<open>\<^verbatim>\<open>xs[i] = v\<close>\<close>
  "py_setitem xs i v =
     (case norm_index (length xs) i of Some k \<Rightarrow> Inr (xs[k := v]) | None \<Rightarrow> Inl IndexError)"

definition py_delitem :: "'a list \<Rightarrow> int \<Rightarrow> error + 'a list" where
  \<comment> \<open>\<^verbatim>\<open>del xs[i]\<close>\<close>
  "py_delitem xs i =
     (case norm_index (length xs) i of
        Some k \<Rightarrow> Inr (take k xs @ drop (Suc k) xs)
      | None \<Rightarrow> Inl IndexError)"

definition py_insert :: "'a list \<Rightarrow> int \<Rightarrow> 'a \<Rightarrow> 'a list" where
  \<comment> \<open>\<^verbatim>\<open>xs.insert(i, v)\<close>: the position is clamped to the list, never an error\<close>
  "py_insert xs i v =
     (let j = nat (if i < 0 then int (length xs) + i else i)
      in take j xs @ [v] @ drop j xs)"

definition py_upto :: "'a list \<Rightarrow> int \<Rightarrow> 'a list" where
  \<comment> \<open>the slice \<^verbatim>\<open>xs[:n]\<close>\<close>
  "py_upto xs n = take (nat (if n < 0 then int (length xs) + n else n)) xs"

definition py_from :: "'a list \<Rightarrow> int \<Rightarrow> 'a list" where
  \<comment> \<open>the slice \<^verbatim>\<open>xs[n:]\<close>\<close>
  "py_from xs n = drop (nat (if n < 0 then int (length xs) + n else n)) xs"

fun py_join :: "'a list \<Rightarrow> 'a list list \<Rightarrow> 'a list" where
  \<comment> \<open>\<^verbatim>\<open>sep.join(xs)\<close>\<close>
  "py_join sep [] = []"
| "py_join sep [x] = x"
| "py_join sep (x # y # ys) = x @ sep @ py_join sep (y # ys)"

fun split_acc :: "'a \<Rightarrow> 'a list \<Rightarrow> 'a list \<Rightarrow> 'a list list" where
  "split_acc sep acc [] = [rev acc]"
| "split_acc sep acc (c # cs) =
     (if c = sep then rev acc # split_acc sep [] cs else split_acc sep (c # acc) cs)"

definition py_split :: "'a \<Rightarrow> 'a list \<Rightarrow> 'a list list" where
  \<comment> \<open>\<^verbatim>\<open>s.split(sep)\<close> for a separator of one character\<close>
  "py_split sep s = split_acc sep [] s"

definition newline :: char where
  "newline = CHR 0x0A"

definition is_space :: "char \<Rightarrow> bool" where
  \<comment> \<open>\<^verbatim>\<open>str.isspace\<close> on the code points below 256\<close>
  "is_space c = (of_char c \<in> {9, 10, 11, 12, 13, 28, 29, 30, 31, 32, 133, 160 :: nat})"

definition py_strip :: "string \<Rightarrow> string" where
  \<comment> \<open>\<^verbatim>\<open>s.strip()\<close>\<close>
  "py_strip s = rev (dropWhile is_space (rev (dropWhile is_space s)))"

section \<open>Editor state\<close>

text \<open>
  \<^verbatim>\<open>AICompleter\<close> (\<^verbatim>\<open>ai_completer.py\<close>): whether a client was built, and the time of the
  last request that passed the rate limiter. The interval between requests is the constant
  of the source.
\<close>

record completer =
  client_available :: bool
  last_request_time :: real

definition min_request_interval :: real where
  "min_request_interval = 0.5"

text \<open>
  \<^verbatim>\<open>TextEditor\<close>: the fields of \<^verbatim>\<open>__init__\<close>, without the screen handle and the
  geometry that only \<^verbatim>\<open>draw\<close> reads. \<^verbatim>\<open>pause_delay_ms\<close> is the value the editor reads
  from its \<^verbatim>\<open>Config\<close>.
\<close>

record editor =
  filename :: "string option"
  lines :: "string list"
  cursor_y :: int
  cursor_x :: int
  suggestion :: string
  suggestion_match_pos :: int
  last_input_time :: real
  ai_enabled :: bool
  requesting_completion :: bool
  modified :: bool
  status_message :: string
  status_message_time :: real
  ai_completer :: completer
  pause_delay_ms :: int

section \<open>Buffer and suggestion operations\<close>

definition set_status :: "string \<Rightarrow> real \<Rightarrow> editor \<Rightarrow> editor" where
  "set_status message now e = e\<lparr>status_message := message, status_message_time := now\<rparr>"

definition get_current_line :: "editor \<Rightarrow> error + string" where
  "get_current_line e =
     (if cursor_y e < int (length (lines e)) then py_getitem (lines e) (cursor_y e)
      else Inr [])"

definition clear_suggestion :: "editor \<Rightarrow> editor" where
  \<comment> \<open>the pair of assignments \<^verbatim>\<open>suggestion = ""; suggestion_match_pos = 0\<close>\<close>
  "clear_suggestion e = e\<lparr>suggestion := [], suggestion_match_pos := 0\<rparr>"

definition check_suggestion_match :: "string \<Rightarrow> editor \<Rightarrow> error + editor" where
  "check_suggestion_match char e =
     (if suggestion e = [] then Inr e
      else if suggestion_match_pos e < int (length (suggestion e)) then
        ebind (py_getitem (suggestion e) (suggestion_match_pos e)) (\<lambda>c.
          if [c] = char then Inr (e\<lparr>suggestion_match_pos := suggestion_match_pos e + 1\<rparr>)
          else Inr (clear_suggestion e))
      else Inr (clear_suggestion e))"

definition accept_suggestion :: "editor \<Rightarrow> error + editor" where
  "accept_suggestion e =
     (if suggestion e = [] then Inr e
      else
        let remaining = py_from (suggestion e) (suggestion_match_pos e) in
        if remaining = [] then Inr (e\<lparr>suggestion := []\<rparr>)
        else
          ebind (get_current_line e) (\<lambda>current_line.
            let new_line = py_upto current_line (cursor_x e) @ remaining
                             @ py_from current_line (cursor_x e) in
            ebind (py_setitem (lines e) (cursor_y e) new_line) (\<lambda>ls.
              Inr (clear_suggestion
                     (e\<lparr>lines := ls,
                        cursor_x := cursor_x e + int (length remaining),
                        modified := True\<rparr>)))))"

definition insert_char :: "string \<Rightarrow> real \<Rightarrow> editor \<Rightarrow> error + editor" where
  "insert_char char now e =
     ebind (get_current_line e) (\<lambda>current_line.
       let new_line = py_upto current_line (cursor_x e) @ char
                        @ py_from current_line (cursor_x e) in
       ebind (py_setitem (lines e) (cursor_y e) new_line) (\<lambda>ls.
         ebind (check_suggestion_match char
                  (e\<lparr>lines := ls, cursor_x := cursor_x e + 1, modified := True\<rparr>)) (\<lambda>e'.
           Inr (e'\<lparr>last_input_time := now\<rparr>))))"

definition delete_char :: "real \<Rightarrow> editor \<Rightarrow> error + editor" where
  "delete_char now e =
     (if cursor_x e > 0 then
        ebind (get_current_line e) (\<lambda>current_line.
          let new_line = py_upto current_line (cursor_x e - 1)
                           @ py_from current_line (cursor_x e) in
          ebind (py_setitem (lines e) (cursor_y e) new_line) (\<lambda>ls.
            Inr ((clear_suggestion
                    (e\<lparr>lines := ls, cursor_x := cursor_x e - 1, modified := True\<rparr>))
                 \<lparr>last_input_time := now\<rparr>)))
      else if cursor_y e > 0 then
        ebind (py_getitem (lines e) (cursor_y e - 1)) (\<lambda>previous_line.
          ebind (get_current_line e) (\<lambda>current_line.
            ebind (py_setitem (lines e) (cursor_y e - 1) (previous_line @ current_line))
              (\<lambda>ls1.
                ebind (py_delitem ls1 (cursor_y e)) (\<lambda>ls2.
                  Inr ((clear_suggestion
                          (e\<lparr>lines := ls2, cursor_y := cursor_y e - 1,
                             cursor_x := int (length previous_line), modified := True\<rparr>))
                       \<lparr>last_input_time := now\<rparr>)))))
      else Inr e)"

definition insert_newline :: "real \<Rightarrow> editor \<Rightarrow> error + editor" where
  "insert_newline now e =
     ebind (get_current_line e) (\<lambda>current_line.
       let before = py_upto current_line (cursor_x e);
           after = py_from current_line (cursor_x e) in
       ebind (py_setitem (lines e) (cursor_y e) before) (\<lambda>ls.
         Inr ((clear_suggestion
                 (e\<lparr>lines := py_insert ls (cursor_y e + 1) after,
                    cursor_y := cursor_y e + 1, cursor_x := 0, modified := True\<rparr>))
              \<lparr>last_input_time := now\<rparr>)))"

definition move_cursor :: "int \<Rightarrow> int \<Rightarrow> editor \<Rightarrow> error + editor" where
  "move_cursor dy dx e =
     (let e1 = (if dy \<noteq> 0 \<or> dx < 0 then clear_suggestion e else e);
          new_y = max 0 (min (int (length (lines e1)) - 1) (cursor_y e1 + dy))
      in
      ebind (if new_y \<noteq> cursor_y e1 then
               (let e2 = e1\<lparr>cursor_y := new_y\<rparr> in
                ebind (get_current_line e2) (\<lambda>l.
                  Inr (e2\<lparr>cursor_x := min (cursor_x e2) (int (length l))\<rparr>)))
             else Inr e1) (\<lambda>e3.
        if dx \<noteq> 0 then
          ebind (get_current_line e3) (\<lambda>l.
            Inr (e3\<lparr>cursor_x := max 0 (min (int (length l)) (cursor_x e3 + dx))\<rparr>))
        else Inr e3))"

section \<open>Completion requests\<close>

fun collect :: "(error + 'a) list \<Rightarrow> error + 'a list" where
  \<comment> \<open>a loop that appends one indexed item per round: the first raise ends it\<close>
  "collect [] = Inr []"
| "collect (m # ms) = ebind m (\<lambda>v. ebind (collect ms) (\<lambda>vs. Inr (v # vs)))"

definition get_context_before_cursor :: "int \<Rightarrow> editor \<Rightarrow> error + string" where
  "get_context_before_cursor max_chars e =
     ebind (collect (map (py_getitem (lines e))
                       [max 0 (cursor_y e - 10)..cursor_y e - 1])) (\<lambda>previous.
       ebind (get_current_line e) (\<lambda>current_line.
         let context = py_join [newline] (previous @ [py_upto current_line (cursor_x e)])
         in if int (length context) > max_chars then Inr (py_from context (- max_chars))
            else Inr context))"

definition unquote :: "string \<Rightarrow> string" where
  \<comment> \<open>\<^verbatim>\<open>completion[1:-1]\<close> when the text starts and ends with a double quote\<close>
  "unquote s =
     (if s \<noteq> [] \<and> hd s = CHR 0x22 \<and> last s = CHR 0x22 then py_from (py_upto s (- 1)) 1
      else s)"

text \<open>
  The provider is outside the program: \<open>api text\<close> is the content of the first choice
  of the response, or \<open>None\<close> when the call raises, returns no choice or returns no
  content. \<open>get_completion\<close> returns the completion together with the updated completer.
\<close>

definition get_completion ::
  "(string \<Rightarrow> string option) \<Rightarrow> real \<Rightarrow> string \<Rightarrow> completer \<Rightarrow> string option \<times> completer"
where
  "get_completion api now text c =
     (if \<not> client_available c \<or> py_strip text = [] then (None, c)
      else if now - last_request_time c < min_request_interval then (None, c)
      else
        let c' = c\<lparr>last_request_time := now\<rparr> in
        case api text of
          None \<Rightarrow> (None, c')
        | Some content \<Rightarrow>
            if content = [] then (None, c') else (Some (unquote (py_strip content)), c'))"

definition is_available :: "completer \<Rightarrow> bool" where
  "is_available c = client_available c"

definition request_ai_completion ::
  "(string \<Rightarrow> string option) \<Rightarrow> real \<Rightarrow> editor \<Rightarrow> error + editor"
where
  "request_ai_completion api now e =
     (if \<not> ai_enabled e \<or> \<not> is_available (ai_completer e) then Inr e
      else if requesting_completion e then Inr e
      else
        ebind (get_context_before_cursor 500 e) (\<lambda>context.
          if py_strip context = [] then Inr e
          else
            case get_completion api now context (ai_completer e) of
              (completion, c') \<Rightarrow>
                let e1 = e\<lparr>requesting_completion := False, ai_completer := c'\<rparr> in
                (case completion of
                   None \<Rightarrow> Inr e1
                 | Some s \<Rightarrow>
                     if s \<noteq> [] then Inr (e1\<lparr>suggestion := s, suggestion_match_pos := 0\<rparr>)
                     else Inr e1)))"

section \<open>Files\<close>

text \<open>
  The file system is the environment of \<^verbatim>\<open>open\<close>: a path is absent, holds a text, or
  cannot be opened. \<^verbatim>\<open>IOError\<close> carries the text that the status line shows. Files are
  opened in text mode with the default newline handling: reading turns every
  carriage return followed by a newline, and every other carriage return, into one newline
  (\<open>universal_newlines\<close>). Writing is that of a system whose line separator is the
  newline character, where the text is stored as it is.
\<close>

definition carriage_return :: char where
  "carriage_return = CHR 0x0D"

fun universal_newlines :: "string \<Rightarrow> string" where
  "universal_newlines [] = []"
| "universal_newlines [c] = (if c = carriage_return then [newline] else [c])"
| "universal_newlines (c # d # cs) =
     (if c = carriage_return \<and> d = newline then newline # universal_newlines cs
      else if c = carriage_return then newline # universal_newlines (d # cs)
      else c # universal_newlines (d # cs))"

datatype io_error = IOError string

datatype file_entry = Absent | File string | Denied

type_synonym filesystem = "string \<Rightarrow> file_entry"

definition fs_read :: "filesystem \<Rightarrow> string \<Rightarrow> io_error + string" where
  "fs_read fs path =
     (case fs path of
        File content \<Rightarrow> Inr (universal_newlines content)
      | Absent \<Rightarrow> Inl (IOError ''No such file or directory'')
      | Denied \<Rightarrow> Inl (IOError ''Permission denied''))"

definition fs_write :: "filesystem \<Rightarrow> string \<Rightarrow> string \<Rightarrow> io_error + filesystem" where
  "fs_write fs path content =
     (case fs path of
        Denied \<Rightarrow> Inl (IOError ''Permission denied'')
      | _ \<Rightarrow> Inr (fs(path := File content)))"

definition load_file :: "string \<Rightarrow> real \<Rightarrow> filesystem \<Rightarrow> editor \<Rightarrow> editor" where
  "load_file fname now fs e =
     (case fs_read fs fname of
        Inr content \<Rightarrow>
          set_status (''Loaded '' @ fname) now
            (e\<lparr>lines := (if content \<noteq> [] then py_split newline content else [[]]),
               filename := Some fname,
               modified := False\<rparr>)
      | Inl (IOError msg) \<Rightarrow> set_status (''Error loading file: '' @ msg) now e)"

definition save_file ::
  "string option \<Rightarrow> real \<Rightarrow> filesystem \<Rightarrow> editor \<Rightarrow> editor \<times> filesystem"
where
  "save_file fname now fs e =
     (let e1 = (case fname of
                  None \<Rightarrow> e
                | Some f \<Rightarrow> if f \<noteq> [] then e\<lparr>filename := Some f\<rparr> else e)
      in
      case filename e1 of
        None \<Rightarrow> (set_status ''No filename specified'' now e1, fs)
      | Some f \<Rightarrow>
          if f = [] then (set_status ''No filename specified'' now e1, fs)
          else
            (case fs_write fs f (py_join [newline] (lines e1)) of
               Inr fs' \<Rightarrow> (set_status (''Saved to '' @ f) now (e1\<lparr>modified := False\<rparr>), fs')
             | Inl (IOError msg) \<Rightarrow> (set_status (''Error saving file: '' @ msg) now e1, fs)))"

section \<open>Input handling\<close>

text \<open>The key codes of the curses library that \<^verbatim>\<open>handle_input\<close> names.\<close>

definition KEY_DOWN :: int where "KEY_DOWN = 258"
definition KEY_UP :: int where "KEY_UP = 259"
definition KEY_LEFT :: int where "KEY_LEFT = 260"
definition KEY_RIGHT :: int where "KEY_RIGHT = 261"
definition KEY_BACKSPACE :: int where "KEY_BACKSPACE = 263"
definition KEY_ENTER :: int where "KEY_ENTER = 343"

definition idle_should_request :: "real \<Rightarrow> editor \<Rightarrow> bool" where
  \<comment> \<open>the three nested conditions of the branch \<^verbatim>\<open>key == -1\<close>\<close>
  "idle_should_request now e =
     ((ai_enabled e \<and> suggestion e = [] \<and> \<not> requesting_completion e)
      \<and> now - last_input_time e > real_of_int (pause_delay_ms e) / 1000
      \<and> last_input_time e > 0)"

text \<open>
  One call of \<^verbatim>\<open>handle_input\<close>: the key read (\<open>-1\<close> when none is pending), the provider,
  the clock and the file system go in; the flag that keeps the main loop running, the
  editor and the file system come out. All clock readings of one call are the same instant.
  A keyboard interrupt, which the source turns into leaving the loop, is not an input here.
\<close>

definition handle_input ::
  "int \<Rightarrow> (string \<Rightarrow> string option) \<Rightarrow> real \<Rightarrow> filesystem \<Rightarrow> editor
     \<Rightarrow> error + (bool \<times> editor \<times> filesystem)"
where
  "handle_input key api now fs e =
     (if key = - 1 then
        (if idle_should_request now e then
           ebind (request_ai_completion api now e) (\<lambda>e'. Inr (True, e', fs))
         else Inr (True, e, fs))
      else if key = 24 then
        (if modified e then
           Inr (True, set_status ''Save changes? (^S to save, ^X again to exit)'' now e, fs)
         else Inr (False, e, fs))
      else if key = 19 then
        (case save_file None now fs e of (e', fs') \<Rightarrow> Inr (True, e', fs'))
      else if key = 15 then
        Inr (True, set_status ''Open: (enter filename then press Enter)'' now e, fs)
      else if key = 7 then
        (let e1 = e\<lparr>ai_enabled := \<not> ai_enabled e\<rparr>;
             e2 = set_status (''AI autocomplete ''
                    @ (if ai_enabled e1 then ''enabled'' else ''disabled'')) now e1
         in Inr (True, if \<not> ai_enabled e2 then e2\<lparr>suggestion := []\<rparr> else e2, fs))
      else if key = 9 \<or> key = KEY_RIGHT then
        (if suggestion e \<noteq> [] then ebind (accept_suggestion e) (\<lambda>e'. Inr (True, e', fs))
         else if key = KEY_RIGHT then ebind (move_cursor 0 1 e) (\<lambda>e'. Inr (True, e', fs))
         else Inr (True, e, fs))
      else if key = KEY_UP then ebind (move_cursor (- 1) 0 e) (\<lambda>e'. Inr (True, e', fs))
      else if key = KEY_DOWN then ebind (move_cursor 1 0 e) (\<lambda>e'. Inr (True, e', fs))
      else if key = KEY_LEFT then ebind (move_cursor 0 (- 1) e) (\<lambda>e'. Inr (True, e', fs))
      else if key \<in> {KEY_BACKSPACE, 127, 8} then
        ebind (delete_char now e) (\<lambda>e'. Inr (True, e', fs))
      else if key \<in> {KEY_ENTER, 10, 13} then
        ebind (insert_newline now e) (\<lambda>e'. Inr (True, e', fs))
      else if 32 \<le> key \<and> key \<le> 126 then
        ebind (insert_char [char_of key] now e) (\<lambda>e'. Inr (True, e', fs))
      else Inr (True, e, fs))"

section \<open>Sequences of buffer operations\<close>

text \<open>
  The four buffer operations as a datatype, each with the clock reading of its call. A typed
  character is one character, as \<^verbatim>\<open>chr(key)\<close> in \<^verbatim>\<open>handle_input\<close>.
\<close>

datatype buffer_op = InsertChar char | DeleteChar | InsertNewline | MoveCursor int int

fun apply_op :: "real \<times> buffer_op \<Rightarrow> editor \<Rightarrow> error + editor" where
  "apply_op (now, InsertChar c) e = insert_char [c] now e"
| "apply_op (now, DeleteChar) e = delete_char now e"
| "apply_op (now, InsertNewline) e = insert_newline now e"
| "apply_op (now, MoveCursor dy dx) e = move_cursor dy dx e"

fun run_ops :: "(real \<times> buffer_op) list \<Rightarrow> editor \<Rightarrow> error + editor" where
  "run_ops [] e = Inr e"
| "run_ops (op # ops) e = ebind (apply_op op e) (run_ops ops)"

definition cursor_inv :: "editor \<Rightarrow> bool" where
  "cursor_inv e =
     (lines e \<noteq> []
      \<and> 0 \<le> cursor_y e \<and> cursor_y e < int (length (lines e))
      \<and> 0 \<le> cursor_x e \<and> cursor_x e \<le> int (length (lines e ! nat (cursor_y e))))"

text \<open>
  The two states of the suggestion, read off the two fields: the source tests
  \<^verbatim>\<open>not self.suggestion\<close> for "no suggestion".
\<close>

datatype suggestion_state = Empty | Active string int

definition suggestion_state_of :: "editor \<Rightarrow> suggestion_state" where
  "suggestion_state_of e =
     (if suggestion e = [] then Empty else Active (suggestion e) (suggestion_match_pos e))"

section \<open>Concrete states\<close>

text \<open>The editor as \<^verbatim>\<open>__init__\<close> leaves it when no file is given and a client exists.\<close>

definition editor0 :: editor where
  "editor0 = \<lparr>filename = None, lines = [[]], cursor_y = 0, cursor_x = 0, suggestion = [],
     suggestion_match_pos = 0, last_input_time = 0, ai_enabled = True,
     requesting_completion = False, modified = False, status_message = [],
     status_message_time = 0,
     ai_completer = \<lparr>client_available = True, last_request_time = 0\<rparr>,
     pause_delay_ms = 200\<rparr>"

definition accept_start :: editor where
  "accept_start = editor0\<lparr>lines := [''Start''], cursor_y := 0, cursor_x := 5,
     suggestion := '' with more'', suggestion_match_pos := 0\<rparr>"

definition buffer_view :: "editor \<Rightarrow> string list \<times> (int \<times> int) \<times> suggestion_state" where
  "buffer_view e = (lines e, (cursor_y e, cursor_x e), suggestion_state_of e)"

definition ops0 :: "(real \<times> buffer_op) list" where
  "ops0 = [(1, InsertChar CHR ''a''), (2, InsertNewline), (3, DeleteChar),
           (4, MoveCursor (- 1) 1)]"

definition half_matched :: editor where
  "half_matched = editor0\<lparr>lines := [''a''], cursor_x := 1, suggestion := ''ab'',
     suggestion_match_pos := 1\<rparr>"


definition empty_fs :: filesystem where
  "empty_fs path = Absent"








definition locked_fs :: filesystem where
  "locked_fs = empty_fs(''locked.txt'' := Denied)"

definition edited_named :: editor where
  "edited_named = editor0\<lparr>filename := Some ''locked.txt'', lines := [''ab'', ''c''],
     cursor_y := 1, cursor_x := 1, modified := True\<rparr>"

definition unsaved_unnamed :: editor where
  "unsaved_unnamed = editor0\<lparr>lines := [''New content''], modified := True\<rparr>"

text \<open>
  What \<open>get_completion\<close> hands back for a context once the provider is called: the
  answer stripped and unquoted, the empty string standing for no completion.
\<close>

definition cleaned_answer :: "(string \<Rightarrow> string option) \<Rightarrow> string \<Rightarrow> string" where
  "cleaned_answer api ctx =
     (case api ctx of
        None \<Rightarrow> []
      | Some content \<Rightarrow> if content = [] then [] else unquote (py_strip content))"

text \<open>A provider that always answers \<open>new\<close>, and an editor whose last edit was at time 1.\<close>

definition provider_new :: "string \<Rightarrow> string option" where
  "provider_new text = Some ''new''"

definition typed_at_1 :: editor where
  "typed_at_1 = editor0\<lparr>lines := [''Hi''], cursor_x := 2, modified := True,
     last_input_time := 1\<rparr>"

definition showing_old :: editor where
  "showing_old = typed_at_1\<lparr>suggestion := ''old'', suggestion_match_pos := 1\<rparr>"




section \<open>Accepting a suggestion\<close>

text \<open>
  Claim C10. Accepting while there is no suggestion returns the editor as it was: the lines,
  the cursor, the modified flag and every other field are unchanged, and nothing is raised.
\<close>

theorem accept_empty_unchanged:
  "suggestion e = [] \<Longrightarrow> accept_suggestion e = Inr e"
  by (simp add: accept_suggestion_def)

theorem accept_empty_unchanged_witness:
  "suggestion editor0 = [] \<and> accept_suggestion editor0 = Inr editor0"
  using accept_empty_unchanged [of editor0] by (simp add: editor0_def)

text \<open>
  Claim C3, as the code has it. From lines \<open>["Start"]\<close>, cursor \<open>(0, 5)\<close> and the
  suggestion \<open>" with more"\<close> with nothing matched, accepting gives the single line
  \<open>"Start with more"\<close>, no suggestion, and the cursor at \<open>(0, 15)\<close>: the suggestion
  has ten characters, so the column is \<open>5 + 10\<close>, the end of the line.
\<close>

theorem accept_scenario:
  assumes "lines e = [''Start'']" and "cursor_y e = 0" and "cursor_x e = 5"
    and "suggestion e = '' with more''" and "suggestion_match_pos e = 0"
  shows "map_sum id buffer_view (accept_suggestion e)
           = Inr ([''Start with more''], (0, 15), Empty)"
  using assms
  by (simp add: accept_suggestion_def py_from_def py_upto_def get_current_line_def
      py_getitem_def py_setitem_def norm_index_def ebind_def clear_suggestion_def Let_def buffer_view_def
      suggestion_state_of_def)

theorem accept_scenario_witness:
  "lines accept_start = [''Start''] \<and> cursor_y accept_start = 0 \<and> cursor_x accept_start = 5
   \<and> suggestion accept_start = '' with more'' \<and> suggestion_match_pos accept_start = 0
   \<and> map_sum id buffer_view (accept_suggestion accept_start)
           = Inr ([''Start with more''], (0, 15), Empty)"
proof -
  have h: "lines accept_start = [''Start'']" "cursor_y accept_start = 0"
    "cursor_x accept_start = 5" "suggestion accept_start = '' with more''"
    "suggestion_match_pos accept_start = 0"
    by (simp_all add: accept_start_def editor0_def)
  from accept_scenario [OF h] h show ?thesis by simp
qed

text \<open>
  The column \<open>16\<close> of the claim as written is not what accepting yields; it would lie
  beyond the end of the fifteen-character line.
\<close>

theorem accept_scenario_counterexample:
  "map_sum id buffer_view (accept_suggestion accept_start)
     \<noteq> Inr ([''Start with more''], (0, 16), Empty)"
  by (simp add: accept_start_def editor0_def accept_suggestion_def py_from_def py_upto_def
      get_current_line_def py_getitem_def py_setitem_def norm_index_def ebind_def clear_suggestion_def
      Let_def buffer_view_def suggestion_state_of_def)

section \<open>The cursor invariant\<close>

text \<open>
  On a valid cursor no index of the buffer operations is out of range: each operation
  returns, and its result is written out below.
\<close>

lemma ebind_Inr: "ebind (Inr v) f = f v"
  by (simp add: ebind_def)

lemma norm_index_in_range:
  "0 \<le> i \<Longrightarrow> i < int n \<Longrightarrow> norm_index n i = Some (nat i)"
  by (simp add: norm_index_def)

lemma py_upto_nonneg: "0 \<le> n \<Longrightarrow> py_upto xs n = take (nat n) xs"
  by (simp add: py_upto_def)

lemma py_from_nonneg: "0 \<le> n \<Longrightarrow> py_from xs n = drop (nat n) xs"
  by (simp add: py_from_def)

lemma get_current_line_valid:
  "cursor_inv e \<Longrightarrow> get_current_line e = Inr (lines e ! nat (cursor_y e))"
  by (simp add: cursor_inv_def get_current_line_def py_getitem_def norm_index_in_range)

lemma setitem_valid:
  "cursor_inv e \<Longrightarrow> py_setitem (lines e) (cursor_y e) v = Inr ((lines e)[nat (cursor_y e) := v])"
  by (simp add: cursor_inv_def py_setitem_def norm_index_in_range)

lemma check_suggestion_match_frame:
  assumes "0 \<le> suggestion_match_pos e"
  shows "\<exists>s p. check_suggestion_match ch e = Inr (e\<lparr>suggestion := s, suggestion_match_pos := p\<rparr>)
           \<and> 0 \<le> p \<and> (s = suggestion e \<or> s = [])"
proof (cases "suggestion e = []")
  case True
  then have "check_suggestion_match ch e
      = Inr (e\<lparr>suggestion := suggestion e, suggestion_match_pos := suggestion_match_pos e\<rparr>)"
    by (simp add: check_suggestion_match_def)
  with assms show ?thesis by blast
next
  case False
  show ?thesis
  proof (cases "suggestion_match_pos e < int (length (suggestion e))")
    case True
    with assms have g: "py_getitem (suggestion e) (suggestion_match_pos e)
        = Inr (suggestion e ! nat (suggestion_match_pos e))"
      by (simp add: py_getitem_def norm_index_in_range)
    show ?thesis
    proof (cases "[suggestion e ! nat (suggestion_match_pos e)] = ch")
      case True
      with False \<open>suggestion_match_pos e < int (length (suggestion e))\<close> g
      have "check_suggestion_match ch e
          = Inr (e\<lparr>suggestion := suggestion e,
                   suggestion_match_pos := suggestion_match_pos e + 1\<rparr>)"
        by (simp add: check_suggestion_match_def ebind_def)
      moreover have "0 \<le> suggestion_match_pos e + 1" using assms by simp
      ultimately show ?thesis by blast
    next
      case nomatch: False
      with False \<open>suggestion_match_pos e < int (length (suggestion e))\<close> g
      have "check_suggestion_match ch e = Inr (e\<lparr>suggestion := [], suggestion_match_pos := 0\<rparr>)"
        by (simp add: check_suggestion_match_def ebind_def clear_suggestion_def)
      then show ?thesis by force
    qed
  next
    case over: False
    with False have "check_suggestion_match ch e
        = Inr (e\<lparr>suggestion := [], suggestion_match_pos := 0\<rparr>)"
      by (simp add: check_suggestion_match_def clear_suggestion_def)
    then show ?thesis by force
  qed
qed

lemma insert_char_inv:
  assumes "cursor_inv e" and "0 \<le> suggestion_match_pos e"
  shows "\<exists>e'. insert_char [c] now e = Inr e' \<and> cursor_inv e' \<and> 0 \<le> suggestion_match_pos e'
           \<and> (suggestion e' = suggestion e \<or> suggestion e' = [])"
proof -
  let ?l = "lines e ! nat (cursor_y e)"
  let ?e1 = "e\<lparr>lines := (lines e)[nat (cursor_y e) :=
                take (nat (cursor_x e)) ?l @ [c] @ drop (nat (cursor_x e)) ?l],
              cursor_x := cursor_x e + 1, modified := True\<rparr>"
  have x0: "0 \<le> cursor_x e" using assms(1) by (simp add: cursor_inv_def)
  have "0 \<le> suggestion_match_pos ?e1" using assms(2) by simp
  from check_suggestion_match_frame [OF this, of "[c]"]
  obtain s p where sp: "check_suggestion_match [c] ?e1
      = Inr (?e1\<lparr>suggestion := s, suggestion_match_pos := p\<rparr>)" "0 \<le> p"
      "s = suggestion e \<or> s = []"
    by auto
  have "insert_char [c] now e
      = Inr (?e1\<lparr>suggestion := s, suggestion_match_pos := p, last_input_time := now\<rparr>)"
    using sp(1) x0
    by (simp add: insert_char_def get_current_line_valid [OF assms(1)]
        setitem_valid [OF assms(1)] ebind_def py_upto_nonneg py_from_nonneg)
  moreover have "cursor_inv (?e1\<lparr>suggestion := s, suggestion_match_pos := p, last_input_time := now\<rparr>)"
    using assms(1) by (auto simp add: cursor_inv_def)
  ultimately show ?thesis using sp(2,3) by auto
qed

lemma cursor_row_nat:
  "cursor_inv e \<Longrightarrow> nat (cursor_y e) < length (lines e)"
  by (simp add: cursor_inv_def nat_less_iff)

lemma delete_char_result:
  assumes "cursor_inv e"
  shows "\<exists>e'. delete_char now e = Inr e' \<and> cursor_inv e'
           \<and> (if 0 < cursor_x e \<or> 0 < cursor_y e
               then suggestion e' = [] \<and> suggestion_match_pos e' = 0
               else e' = e)"
proof (cases "0 < cursor_x e")
  case True
  let ?l = "lines e ! nat (cursor_y e)"
  let ?e' = "e\<lparr>lines := (lines e)[nat (cursor_y e) :=
                take (nat (cursor_x e - 1)) ?l @ drop (nat (cursor_x e)) ?l],
              cursor_x := cursor_x e - 1, modified := True,
              suggestion := [], suggestion_match_pos := 0, last_input_time := now\<rparr>"
  have "delete_char now e = Inr ?e'"
    using True
    by (simp add: delete_char_def get_current_line_valid [OF assms]
        setitem_valid [OF assms] ebind_def py_upto_nonneg py_from_nonneg clear_suggestion_def)
  moreover have "cursor_inv ?e'"
    using assms True by (auto simp add: cursor_inv_def)
  ultimately show ?thesis using True by auto
next
  case x0: False
  show ?thesis
  proof (cases "0 < cursor_y e")
    case True
    let ?k = "nat (cursor_y e)"
    let ?p = "lines e ! (?k - 1)"
    let ?c = "lines e ! ?k"
    let ?ls1 = "(lines e)[?k - 1 := ?p @ ?c]"
    let ?ls2 = "take ?k ?ls1 @ drop (Suc ?k) ?ls1"
    let ?e' = "e\<lparr>lines := ?ls2, cursor_y := cursor_y e - 1,
                cursor_x := int (length ?p), modified := True,
                suggestion := [], suggestion_match_pos := 0, last_input_time := now\<rparr>"
    have k: "?k < length (lines e)" "0 < ?k"
      using cursor_row_nat [OF assms] True by simp_all
    have n1: "nat (cursor_y e - 1) = ?k - 1" using True by simp
    have g: "py_getitem (lines e) (cursor_y e - 1) = Inr ?p"
      using k True by (simp add: py_getitem_def norm_index_in_range n1)
    have s: "py_setitem (lines e) (cursor_y e - 1) (?p @ ?c) = Inr ?ls1"
      using k True by (simp add: py_setitem_def norm_index_in_range n1)
    have d: "py_delitem ?ls1 (cursor_y e) = Inr ?ls2"
      using k True by (simp add: py_delitem_def norm_index_in_range)
    have "delete_char now e = Inr ?e'"
      using True x0 g s d
      by (simp add: delete_char_def get_current_line_valid [OF assms] ebind_def
          clear_suggestion_def)
    moreover have "cursor_inv ?e'"
    proof -
      have len: "length ?ls2 = length (lines e) - 1" using k by simp
      have "?ls2 ! (?k - 1) = ?p @ ?c"
        using k by (simp add: nth_append)
      then show ?thesis
        using k len True assms by (simp add: cursor_inv_def n1)
    qed
    ultimately show ?thesis using True by auto
  next
    case False
    with x0 have "delete_char now e = Inr e" by (simp add: delete_char_def)
    with x0 False assms show ?thesis by simp
  qed
qed

lemma insert_newline_result:
  assumes "cursor_inv e"
  shows "\<exists>e'. insert_newline now e = Inr e' \<and> cursor_inv e'
           \<and> suggestion e' = [] \<and> suggestion_match_pos e' = 0"
proof -
  let ?k = "nat (cursor_y e)"
  let ?l = "lines e ! ?k"
  let ?ls = "(lines e)[?k := take (nat (cursor_x e)) ?l]"
  let ?ls' = "take (Suc ?k) ?ls @ [drop (nat (cursor_x e)) ?l] @ drop (Suc ?k) ?ls"
  let ?e' = "e\<lparr>lines := ?ls', cursor_y := cursor_y e + 1, cursor_x := 0, modified := True,
              suggestion := [], suggestion_match_pos := 0, last_input_time := now\<rparr>"
  have k: "?k < length (lines e)" "0 \<le> cursor_y e" "0 \<le> cursor_x e"
    using cursor_row_nat [OF assms] assms by (simp_all add: cursor_inv_def)
  have n1: "nat (cursor_y e + 1) = Suc ?k" using k by simp
  have "py_insert ?ls (cursor_y e + 1) (drop (nat (cursor_x e)) ?l) = ?ls'"
    using k by (simp add: py_insert_def n1)
  then have "insert_newline now e = Inr ?e'"
    using k
    by (simp add: insert_newline_def get_current_line_valid [OF assms]
        setitem_valid [OF assms] ebind_def py_upto_nonneg py_from_nonneg clear_suggestion_def)
  moreover have "cursor_inv ?e'"
  proof -
    have "?ls' ! Suc ?k = drop (nat (cursor_x e)) ?l"
      using k by (simp add: nth_append)
    moreover have "length ?ls' = Suc (length (lines e))" using k by simp
    ultimately show ?thesis using k by (simp add: cursor_inv_def n1)
  qed
  ultimately show ?thesis by auto
qed

lemma clamp_x_inv:
  assumes "cursor_inv e"
  shows "cursor_inv (e\<lparr>cursor_x := max 0 (min (int (length (lines e ! nat (cursor_y e)))) v)\<rparr>)"
  using assms by (simp add: cursor_inv_def)

lemma move_cursor_result:
  assumes "cursor_inv e"
  shows "\<exists>e'. move_cursor dy dx e = Inr e' \<and> cursor_inv e'
           \<and> (suggestion e' = suggestion e \<and> suggestion_match_pos e' = suggestion_match_pos e
              \<or> suggestion e' = [] \<and> suggestion_match_pos e' = 0)"
proof -
  define e1 where "e1 = (if dy \<noteq> 0 \<or> dx < 0 then clear_suggestion e else e)"
  define new_y where "new_y = max 0 (min (int (length (lines e1)) - 1) (cursor_y e1 + dy))"
  define e3 where "e3 = (if new_y \<noteq> cursor_y e1
      then e1\<lparr>cursor_y := new_y,
              cursor_x := min (cursor_x e1) (int (length (lines e1 ! nat new_y)))\<rparr>
      else e1)"
  define e4 where "e4 = (if dx \<noteq> 0
      then e3\<lparr>cursor_x := max 0 (min (int (length (lines e3 ! nat (cursor_y e3))))
                                      (cursor_x e3 + dx))\<rparr>
      else e3)"
  have e1: "cursor_inv e1"
    "suggestion e1 = suggestion e \<and> suggestion_match_pos e1 = suggestion_match_pos e
       \<or> suggestion e1 = [] \<and> suggestion_match_pos e1 = 0"
    using assms by (auto simp add: e1_def clear_suggestion_def cursor_inv_def)
  have ny: "0 \<le> new_y" "new_y < int (length (lines e1))"
    using e1(1) by (auto simp add: new_y_def cursor_inv_def)
  have inv2: "cursor_inv (e1\<lparr>cursor_y := new_y,
      cursor_x := min (cursor_x e1) (int (length (lines e1 ! nat new_y)))\<rparr>)"
    using ny e1(1) by (simp add: cursor_inv_def)
  have g2: "get_current_line (e1\<lparr>cursor_y := new_y\<rparr>) = Inr (lines e1 ! nat new_y)"
    using ny by (simp add: get_current_line_def py_getitem_def norm_index_in_range)
  have e3: "cursor_inv e3" using inv2 e1(1) by (simp add: e3_def)
  have s3: "suggestion e3 = suggestion e1" "suggestion_match_pos e3 = suggestion_match_pos e1"
    by (simp_all add: e3_def)
  have e4: "cursor_inv e4" using clamp_x_inv [OF e3] e3 by (simp add: e4_def)
  have s4: "suggestion e4 = suggestion e1" "suggestion_match_pos e4 = suggestion_match_pos e1"
    using s3 by (simp_all add: e4_def)
  have step1: "(if new_y \<noteq> cursor_y e1 then
                ebind (get_current_line (e1\<lparr>cursor_y := new_y\<rparr>)) (\<lambda>l.
                  Inr (e1\<lparr>cursor_y := new_y,
                         cursor_x := min (cursor_x (e1\<lparr>cursor_y := new_y\<rparr>)) (int (length l))\<rparr>))
             else Inr e1) = Inr e3"
    using g2 by (simp add: e3_def ebind_def)
  have step2: "(if dx \<noteq> 0 then
          ebind (get_current_line e3) (\<lambda>l.
            Inr (e3\<lparr>cursor_x := max 0 (min (int (length l)) (cursor_x e3 + dx))\<rparr>))
        else Inr e3) = Inr e4"
    using get_current_line_valid [OF e3] by (simp add: e4_def ebind_def)
  have "move_cursor dy dx e = Inr e4"
    unfolding move_cursor_def Let_def e1_def [symmetric] new_y_def [symmetric]
    by (simp only: step1 ebind_Inr step2)
  with e4 s4 e1(2) show ?thesis by auto
qed

lemma apply_op_inv:
  assumes "cursor_inv e" and "0 \<le> suggestion_match_pos e"
  shows "\<exists>e'. apply_op op e = Inr e' \<and> cursor_inv e' \<and> 0 \<le> suggestion_match_pos e'"
proof (cases op)
  case (Pair now bop)
  show ?thesis
  proof (cases bop)
    case (InsertChar c)
    with Pair insert_char_inv [OF assms, of c now] show ?thesis by auto
  next
    case DeleteChar
    from delete_char_result [OF assms(1), of now] obtain e' where
      "delete_char now e = Inr e'" "cursor_inv e'"
      "if 0 < cursor_x e \<or> 0 < cursor_y e
       then suggestion e' = [] \<and> suggestion_match_pos e' = 0 else e' = e"
      by blast
    moreover from this(3) assms(2) have "0 \<le> suggestion_match_pos e'"
      by (auto split: if_splits)
    ultimately show ?thesis using Pair DeleteChar by simp
  next
    case InsertNewline
    from insert_newline_result [OF assms(1), of now] obtain e' where
      "insert_newline now e = Inr e'" "cursor_inv e'"
      "suggestion e' = [] \<and> suggestion_match_pos e' = 0"
      by blast
    then show ?thesis using Pair InsertNewline by simp
  next
    case (MoveCursor dy dx)
    from move_cursor_result [OF assms(1), of dy dx] obtain e' where
      "move_cursor dy dx e = Inr e'" "cursor_inv e'"
      "suggestion e' = suggestion e \<and> suggestion_match_pos e' = suggestion_match_pos e
         \<or> suggestion e' = [] \<and> suggestion_match_pos e' = 0"
      by blast
    moreover from this(3) assms(2) have "0 \<le> suggestion_match_pos e'" by auto
    ultimately show ?thesis using Pair MoveCursor by simp
  qed
qed

lemma run_ops_inv:
  "cursor_inv e \<Longrightarrow> 0 \<le> suggestion_match_pos e
     \<Longrightarrow> \<exists>e'. run_ops ops e = Inr e' \<and> cursor_inv e' \<and> 0 \<le> suggestion_match_pos e'"
proof (induction ops arbitrary: e)
  case Nil
  then show ?case by simp
next
  case (Cons op ops)
  from apply_op_inv [OF Cons.prems, of op] obtain e1 where
    e1: "apply_op op e = Inr e1" "cursor_inv e1" "0 \<le> suggestion_match_pos e1" by blast
  from Cons.IH [OF e1(2,3)] e1(1) show ?case by (simp add: ebind_def)
qed

text \<open>
  Claim C1. From an editor with at least one line and a cursor inside the buffer, every
  sequence of \<open>insert_char\<close>, \<open>delete_char\<close>, \<open>insert_newline\<close> and \<open>move_cursor\<close>
  runs without raising, and after every operation of the sequence (after every prefix
  \<open>take n ops\<close>) the buffer has at least one line, \<open>0 \<le> row < len(lines)\<close> and
  \<open>0 \<le> col \<le> len(lines[row])\<close>. The match position is taken not to be negative,
  as the editor starts with it and as every key keeps it (\<open>handle_input_keeps_valid\<close>
  below): \<open>insert_char\<close> indexes the suggestion with it.
\<close>

theorem cursor_invariant_after_every_operation:
  assumes "cursor_inv e" and "0 \<le> suggestion_match_pos e"
  shows "\<exists>e'. run_ops (take n ops) e = Inr e' \<and> cursor_inv e'"
  using run_ops_inv [OF assms, of "take n ops"] by blast

theorem cursor_invariant_after_every_operation_witness:
  "cursor_inv editor0 \<and> 0 \<le> suggestion_match_pos editor0
   \<and> (\<exists>e'. run_ops (take 3 ops0) editor0 = Inr e' \<and> cursor_inv e')"
proof -
  have h: "cursor_inv editor0" "0 \<le> suggestion_match_pos editor0"
    by (simp_all add: cursor_inv_def editor0_def)
  from cursor_invariant_after_every_operation [OF h, of 3 ops0] h show ?thesis by simp
qed

section \<open>Matching typed characters against the suggestion\<close>

text \<open>
  Claim C2, as the code has it. With a suggestion \<open>text\<close> of which \<open>k < len(text)\<close>
  characters are matched, observing a typed string that is the character \<open>text[k]\<close>
  leaves the suggestion in place with \<open>k + 1\<close> characters matched, also when
  \<open>k + 1 = len(text)\<close>; observing anything else clears the suggestion.
\<close>

theorem match_advance:
  assumes "suggestion e = text" and "suggestion_match_pos e = k"
    and "0 \<le> k" and "k < int (length text)"
  shows "map_sum id suggestion_state_of (check_suggestion_match ch e)
           = Inr (if ch = [text ! nat k] then Active text (k + 1) else Empty)"
proof -
  from assms have ne: "suggestion e \<noteq> []" by auto
  from assms have g: "py_getitem (suggestion e) (suggestion_match_pos e) = Inr (text ! nat k)"
    by (simp add: py_getitem_def norm_index_in_range)
  show ?thesis
    using assms ne g
    by (auto simp add: check_suggestion_match_def ebind_def suggestion_state_of_def
        clear_suggestion_def)
qed

theorem match_advance_witness:
  "suggestion half_matched = ''ab'' \<and> suggestion_match_pos half_matched = 1
   \<and> (0::int) \<le> 1 \<and> (1::int) < int (length ''ab'')
   \<and> map_sum id suggestion_state_of (check_suggestion_match ''b'' half_matched)
        = Inr (Active ''ab'' 2)"
proof -
  have h: "suggestion half_matched = ''ab''" "suggestion_match_pos half_matched = 1"
    "(0::int) \<le> 1" "(1::int) < int (length ''ab'')"
    by (simp_all add: half_matched_def editor0_def)
  from match_advance [OF h, of "''b''"] h show ?thesis by simp
qed

text \<open>
  Matching the last character does not clear the suggestion at once: after typing \<open>b\<close>
  against \<open>"ab"\<close> with one character matched, the fields hold \<open>"ab"\<close> and \<open>2\<close>.
\<close>

theorem match_last_character_counterexample:
  "map_sum id suggestion_state_of (check_suggestion_match ''b'' half_matched) \<noteq> Inr Empty"
  by (simp add: half_matched_def editor0_def check_suggestion_match_def py_getitem_def
      norm_index_def ebind_def suggestion_state_of_def)

text \<open>The exhausted suggestion is cleared by the observation that follows.\<close>

lemma exhausted_next_observation:
  assumes "suggestion e \<noteq> []" and "suggestion_match_pos e = int (length (suggestion e))"
  shows "map_sum id suggestion_state_of (check_suggestion_match ch e) = Inr Empty"
  using assms
  by (simp add: check_suggestion_match_def suggestion_state_of_def clear_suggestion_def)

section \<open>Backspace and the suggestion\<close>

lemma handle_input_backspace:
  assumes "key \<in> {KEY_BACKSPACE, 127, 8}"
  shows "handle_input key api now fs e = ebind (delete_char now e) (\<lambda>e'. Inr (True, e', fs))"
  using assms
  by (auto simp add: handle_input_def KEY_BACKSPACE_def KEY_RIGHT_def KEY_UP_def KEY_DOWN_def
      KEY_LEFT_def)




section \<open>Saving and loading\<close>










text \<open>
  Claim C8. A load that fails with an \<^verbatim>\<open>IOError\<close> leaves the lines, the cursor, the
  filename and the modified flag as they were. A save whose write fails with an
  \<^verbatim>\<open>IOError\<close> (the path it ends up with cannot be opened) leaves the lines and the
  modified flag as they were, so a modified buffer stays modified, and writes nothing.
\<close>

theorem io_failure_keeps_state:
  "(fs_read fs path = Inl err \<longrightarrow>
      lines (load_file path now fs e) = lines e
      \<and> cursor_y (load_file path now fs e) = cursor_y e
      \<and> cursor_x (load_file path now fs e) = cursor_x e
      \<and> filename (load_file path now fs e) = filename e
      \<and> modified (load_file path now fs e) = modified e)
   \<and> (filename (fst (save_file arg now' fs' e')) = Some target \<and> fs' target = Denied \<longrightarrow>
      lines (fst (save_file arg now' fs' e')) = lines e'
      \<and> modified (fst (save_file arg now' fs' e')) = modified e'
      \<and> snd (save_file arg now' fs' e') = fs')"
proof (intro conjI impI)
  assume "fs_read fs path = Inl err"
  then have "load_file path now fs e
      = set_status (''Error loading file: '' @ (case err of IOError msg \<Rightarrow> msg)) now e"
    by (cases err) (simp add: load_file_def)
  then show "lines (load_file path now fs e) = lines e"
    "cursor_y (load_file path now fs e) = cursor_y e"
    "cursor_x (load_file path now fs e) = cursor_x e"
    "filename (load_file path now fs e) = filename e"
    "modified (load_file path now fs e) = modified e"
    by (simp_all add: set_status_def)
next
  assume a: "filename (fst (save_file arg now' fs' e')) = Some target \<and> fs' target = Denied"
  define e1 where "e1 = (case arg of None \<Rightarrow> e'
      | Some f \<Rightarrow> if f \<noteq> [] then e'\<lparr>filename := Some f\<rparr> else e')"
  have e1: "lines e1 = lines e'" "modified e1 = modified e'"
    by (simp_all add: e1_def split: option.splits)
  have r: "lines (fst (save_file arg now' fs' e')) = lines e'
      \<and> modified (fst (save_file arg now' fs' e')) = modified e'
      \<and> snd (save_file arg now' fs' e') = fs'"
  proof (cases "filename e1")
    case None
    then show ?thesis
      using e1 unfolding save_file_def Let_def e1_def [symmetric]
      by (simp add: set_status_def)
  next
    case (Some f)
    show ?thesis
    proof (cases "f = []")
      case True
      with Some show ?thesis
        using e1 unfolding save_file_def Let_def e1_def [symmetric]
        by (simp add: set_status_def)
    next
      case False
      show ?thesis
      proof (cases "fs_write fs' f (py_join [newline] (lines e1))")
        case (Inl ioerr)
        with Some False show ?thesis
          using e1 unfolding save_file_def Let_def e1_def [symmetric]
          by (cases ioerr) (simp add: set_status_def)
      next
        case (Inr fs2)
        with Some False have "filename (fst (save_file arg now' fs' e')) = Some f"
          unfolding save_file_def Let_def e1_def [symmetric]
          by (simp add: set_status_def)
        with a have "fs' f = Denied" by simp
        with Inr show ?thesis by (simp add: fs_write_def)
      qed
    qed
  qed
  from r show "lines (fst (save_file arg now' fs' e')) = lines e'"
    "modified (fst (save_file arg now' fs' e')) = modified e'"
    "snd (save_file arg now' fs' e') = fs'"
    by simp_all
qed

theorem io_failure_keeps_state_witness:
  "lines (load_file ''missing.txt'' 1 locked_fs edited_named) = [''ab'', ''c'']
   \<and> cursor_y (load_file ''missing.txt'' 1 locked_fs edited_named) = 1
   \<and> cursor_x (load_file ''missing.txt'' 1 locked_fs edited_named) = 1
   \<and> filename (load_file ''missing.txt'' 1 locked_fs edited_named) = Some ''locked.txt''
   \<and> modified (load_file ''missing.txt'' 1 locked_fs edited_named)
   \<and> lines (fst (save_file None 2 locked_fs edited_named)) = [''ab'', ''c'']
   \<and> modified (fst (save_file None 2 locked_fs edited_named))
   \<and> snd (save_file None 2 locked_fs edited_named) = locked_fs"
proof -
  have r: "fs_read locked_fs ''missing.txt'' = Inl (IOError ''No such file or directory'')"
    by (simp add: fs_read_def locked_fs_def empty_fs_def)
  have s: "filename (fst (save_file None 2 locked_fs edited_named)) = Some ''locked.txt''
      \<and> locked_fs ''locked.txt'' = Denied"
    by (simp add: save_file_def edited_named_def editor0_def locked_fs_def fs_write_def
        set_status_def)
  from io_failure_keeps_state [of locked_fs "''missing.txt''" "IOError ''No such file or directory''"
      1 edited_named None 2 locked_fs edited_named "''locked.txt''"] r s
  show ?thesis by (simp add: edited_named_def editor0_def)
qed

text \<open>
  Claim C9 does not hold of \<open>save_file\<close>: with no filename set and none given, it
  reports \<open>No filename specified\<close> and returns; the filename stays unset, the buffer stays
  modified and no file \<^verbatim>\<open>untitled.txt\<close> is written.
\<close>

theorem save_without_filename:
  "save_file None 1 empty_fs unsaved_unnamed
     = (set_status ''No filename specified'' 1 unsaved_unnamed, empty_fs)
   \<and> filename (fst (save_file None 1 empty_fs unsaved_unnamed)) = None
   \<and> modified (fst (save_file None 1 empty_fs unsaved_unnamed))
   \<and> snd (save_file None 1 empty_fs unsaved_unnamed) ''untitled.txt'' = Absent"
  by (simp add: save_file_def unsaved_unnamed_def editor0_def set_status_def empty_fs_def)

section \<open>Idle checks and completion requests\<close>

lemma collect_all_Inr:
  "\<forall>m \<in> set ms. \<exists>v. m = Inr v \<Longrightarrow> \<exists>vs. collect ms = Inr vs"
  by (induction ms) (auto simp add: ebind_def)

lemma context_returns:
  assumes "cursor_inv e"
  shows "\<exists>ctx. get_context_before_cursor m e = Inr ctx"
proof -
  have "\<forall>r \<in> set (map (py_getitem (lines e)) [max 0 (cursor_y e - 10)..cursor_y e - 1]).
          \<exists>v. r = Inr v"
    using assms by (auto simp add: cursor_inv_def py_getitem_def norm_index_in_range)
  from collect_all_Inr [OF this] obtain vs where
    "collect (map (py_getitem (lines e)) [max 0 (cursor_y e - 10)..cursor_y e - 1]) = Inr vs"
    by blast
  then show ?thesis
    by (simp add: get_context_before_cursor_def get_current_line_valid [OF assms] ebind_def
        Let_def)
qed

lemma hi_context: "get_context_before_cursor 500 typed_at_1 = Inr ''Hi''"
  by (simp add: get_context_before_cursor_def typed_at_1_def editor0_def get_current_line_def
      py_getitem_def norm_index_def py_upto_def ebind_def)

lemma hi_context_old: "get_context_before_cursor 500 showing_old = Inr ''Hi''"
  by (simp add: get_context_before_cursor_def showing_old_def typed_at_1_def editor0_def
      get_current_line_def py_getitem_def norm_index_def py_upto_def ebind_def)

lemma strip_hi: "py_strip ''Hi'' = ''Hi''"
  by (simp add: py_strip_def is_space_def)

lemma strip_new: "unquote (py_strip ''new'') = ''new''"
  by (simp add: py_strip_def is_space_def unquote_def)

lemma cursor_inv_cong:
  "lines e' = lines e \<Longrightarrow> cursor_y e' = cursor_y e \<Longrightarrow> cursor_x e' = cursor_x e
     \<Longrightarrow> cursor_inv e' = cursor_inv e"
  by (simp add: cursor_inv_def)

lemma accept_suggestion_result:
  assumes "cursor_inv e"
  shows "\<exists>e'. accept_suggestion e = Inr e' \<and> cursor_inv e'
           \<and> (suggestion e' = suggestion e \<or> suggestion e' = [])
           \<and> (suggestion_match_pos e' = suggestion_match_pos e \<or> suggestion_match_pos e' = 0)"
proof (cases "suggestion e = []")
  case True
  with assms show ?thesis by (simp add: accept_suggestion_def)
next
  case False
  let ?r = "py_from (suggestion e) (suggestion_match_pos e)"
  show ?thesis
  proof (cases "?r = []")
    case True
    with False have "accept_suggestion e = Inr (e\<lparr>suggestion := []\<rparr>)"
      by (simp add: accept_suggestion_def)
    moreover have "cursor_inv (e\<lparr>suggestion := []\<rparr>)"
      using assms by (simp add: cursor_inv_def)
    ultimately show ?thesis by simp
  next
    case rem: False
    let ?l = "lines e ! nat (cursor_y e)"
    let ?e' = "e\<lparr>lines := (lines e)[nat (cursor_y e) :=
                  take (nat (cursor_x e)) ?l @ ?r @ drop (nat (cursor_x e)) ?l],
                cursor_x := cursor_x e + int (length ?r), modified := True,
                suggestion := [], suggestion_match_pos := 0\<rparr>"
    have x0: "0 \<le> cursor_x e" using assms by (simp add: cursor_inv_def)
    have "accept_suggestion e = Inr ?e'"
      using False rem x0
      by (simp add: accept_suggestion_def get_current_line_valid [OF assms]
          setitem_valid [OF assms] ebind_def py_upto_nonneg py_from_nonneg
          clear_suggestion_def Let_def)
    moreover have "cursor_inv ?e'"
      using assms by (auto simp add: cursor_inv_def)
    ultimately show ?thesis by simp
  qed
qed

lemma idle_check_result:
  assumes "cursor_inv e"
  shows "\<exists>e' ctx. handle_input (- 1) api now fs e = Inr (True, e', fs)
        \<and> get_context_before_cursor 500 e = Inr ctx
        \<and> lines e' = lines e \<and> cursor_y e' = cursor_y e \<and> cursor_x e' = cursor_x e
        \<and> last_input_time e' = last_input_time e
        \<and> (suggestion_match_pos e' = suggestion_match_pos e \<or> suggestion_match_pos e' = 0)
        \<and> suggestion_state_of e' =
            (if ai_enabled e \<and> suggestion e = [] \<and> \<not> requesting_completion e
                \<and> now - last_input_time e > real_of_int (pause_delay_ms e) / 1000
                \<and> last_input_time e > 0
                \<and> client_available (ai_completer e) \<and> py_strip ctx \<noteq> []
                \<and> min_request_interval \<le> now - last_request_time (ai_completer e)
                \<and> cleaned_answer api ctx \<noteq> []
             then Active (cleaned_answer api ctx) 0 else suggestion_state_of e)"
proof -
  from context_returns [OF assms, of 500] obtain ctx where
    c: "get_context_before_cursor 500 e = Inr ctx" by blast
  show ?thesis
  proof (cases "idle_should_request now e")
    case False
    then have "handle_input (- 1) api now fs e = Inr (True, e, fs)"
      by (simp add: handle_input_def)
    with False c show ?thesis by (auto simp add: idle_should_request_def)
  next
    case True
    then have h: "handle_input (- 1) api now fs e
        = ebind (request_ai_completion api now e) (\<lambda>e'. Inr (True, e', fs))"
      by (simp add: handle_input_def)
    from True have g: "ai_enabled e" "suggestion e = []" "\<not> requesting_completion e"
      "now - last_input_time e > real_of_int (pause_delay_ms e) / 1000" "last_input_time e > 0"
      by (simp_all add: idle_should_request_def)
    show ?thesis
    proof (cases "client_available (ai_completer e) \<and> py_strip ctx \<noteq> []
        \<and> min_request_interval \<le> now - last_request_time (ai_completer e)")
      case False
      then have "request_ai_completion api now e = Inr e
          \<or> request_ai_completion api now e = Inr (e\<lparr>requesting_completion := False,
                 ai_completer := ai_completer e\<rparr>)"
        using g c
        by (auto simp add: request_ai_completion_def is_available_def get_completion_def
            ebind_def)
      then show ?thesis using c False h g
        by (auto simp add: ebind_def suggestion_state_of_def)
    next
      case ok: True
      show ?thesis
      proof (cases "cleaned_answer api ctx = []")
        case True
        then have "request_ai_completion api now e
            = Inr (e\<lparr>requesting_completion := False,
                     ai_completer := (ai_completer e)\<lparr>last_request_time := now\<rparr>\<rparr>)"
          using g c ok
          by (auto simp add: request_ai_completion_def is_available_def get_completion_def
              ebind_def cleaned_answer_def split: option.splits if_splits)
        then show ?thesis using c True h g
          by (simp add: ebind_def suggestion_state_of_def)
      next
        case False
        then have "request_ai_completion api now e
            = Inr (e\<lparr>requesting_completion := False,
                     ai_completer := (ai_completer e)\<lparr>last_request_time := now\<rparr>,
                     suggestion := cleaned_answer api ctx, suggestion_match_pos := 0\<rparr>)"
          using g c ok
          by (auto simp add: request_ai_completion_def is_available_def get_completion_def
              ebind_def cleaned_answer_def split: option.splits if_splits)
        then show ?thesis using c False h g ok
          by (simp add: ebind_def suggestion_state_of_def)
      qed
    qed
  qed
qed


lemmas key_defs = KEY_DOWN_def KEY_UP_def KEY_LEFT_def KEY_RIGHT_def KEY_BACKSPACE_def
  KEY_ENTER_def

lemma save_file_frame:
  "lines (fst (save_file arg now fs e)) = lines e
   \<and> cursor_y (fst (save_file arg now fs e)) = cursor_y e
   \<and> cursor_x (fst (save_file arg now fs e)) = cursor_x e
   \<and> suggestion (fst (save_file arg now fs e)) = suggestion e
   \<and> suggestion_match_pos (fst (save_file arg now fs e)) = suggestion_match_pos e"
  by (auto simp add: save_file_def set_status_def Let_def
      split: option.splits sum.splits io_error.splits)

lemma handle_input_move:
  "key = KEY_UP \<Longrightarrow> handle_input key api now fs e
     = ebind (move_cursor (- 1) 0 e) (\<lambda>e'. Inr (True, e', fs))"
  "key = KEY_DOWN \<Longrightarrow> handle_input key api now fs e
     = ebind (move_cursor 1 0 e) (\<lambda>e'. Inr (True, e', fs))"
  "key = KEY_LEFT \<Longrightarrow> handle_input key api now fs e
     = ebind (move_cursor 0 (- 1) e) (\<lambda>e'. Inr (True, e', fs))"
  by (simp_all add: handle_input_def key_defs)

lemma handle_input_accept:
  "key = 9 \<or> key = KEY_RIGHT \<Longrightarrow> handle_input key api now fs e
     = (if suggestion e \<noteq> [] then ebind (accept_suggestion e) (\<lambda>e'. Inr (True, e', fs))
        else if key = KEY_RIGHT then ebind (move_cursor 0 1 e) (\<lambda>e'. Inr (True, e', fs))
        else Inr (True, e, fs))"
  by (auto simp add: handle_input_def key_defs)

lemma handle_input_enter:
  "key \<in> {KEY_ENTER, 10, 13} \<Longrightarrow> handle_input key api now fs e
     = ebind (insert_newline now e) (\<lambda>e'. Inr (True, e', fs))"
  by (auto simp add: handle_input_def key_defs)

lemma handle_input_char:
  "32 \<le> key \<Longrightarrow> key \<le> 126 \<Longrightarrow> handle_input key api now fs e
     = ebind (insert_char [char_of key] now e) (\<lambda>e'. Inr (True, e', fs))"
  by (simp add: handle_input_def key_defs)

lemma handle_input_control:
  "handle_input 24 api now fs e
     = (if modified e
        then Inr (True, set_status ''Save changes? (^S to save, ^X again to exit)'' now e, fs)
        else Inr (False, e, fs))"
  "handle_input 19 api now fs e
     = (case save_file None now fs e of (e', fs') \<Rightarrow> Inr (True, e', fs'))"
  "handle_input 15 api now fs e
     = Inr (True, set_status ''Open: (enter filename then press Enter)'' now e, fs)"
  by (simp_all add: handle_input_def)

lemma handle_input_toggle:
  "handle_input 7 api now fs e
     = Inr (True, (if ai_enabled e
                   then (set_status ''AI autocomplete disabled'' now
                           (e\<lparr>ai_enabled := False\<rparr>))\<lparr>suggestion := []\<rparr>
                   else set_status ''AI autocomplete enabled'' now (e\<lparr>ai_enabled := True\<rparr>)),
            fs)"
  by (simp add: handle_input_def set_status_def Let_def)

lemma handle_input_keeps_valid:
  assumes "cursor_inv e" and "0 \<le> suggestion_match_pos e"
  shows "\<exists>running e' fs'. handle_input key api now fs e = Inr (running, e', fs')
           \<and> cursor_inv e' \<and> 0 \<le> suggestion_match_pos e'
           \<and> (key \<noteq> - 1 \<longrightarrow> suggestion e' = suggestion e \<or> suggestion e' = [])"
proof -
  have status: "cursor_inv (set_status m now e)" for m
    using assms(1) by (simp add: cursor_inv_def set_status_def)
  have moved: "\<exists>e'. ebind (move_cursor dy dx e) (\<lambda>e'. Inr (True, e', fs)) = Inr (True, e', fs)
      \<and> cursor_inv e' \<and> 0 \<le> suggestion_match_pos e'
      \<and> (suggestion e' = suggestion e \<or> suggestion e' = [])" for dy dx
  proof -
    from move_cursor_result [OF assms(1), of dy dx] obtain e' where
      "move_cursor dy dx e = Inr e'" "cursor_inv e'"
      "suggestion e' = suggestion e \<and> suggestion_match_pos e' = suggestion_match_pos e
         \<or> suggestion e' = [] \<and> suggestion_match_pos e' = 0"
      by blast
    with assms(2) show ?thesis by (auto simp add: ebind_def)
  qed
  consider (idle) "key = - 1" | (quit) "key = 24" | (save) "key = 19" | (opn) "key = 15"
    | (toggle) "key = 7" | (accept) "key = 9 \<or> key = KEY_RIGHT" | (up) "key = KEY_UP"
    | (down) "key = KEY_DOWN" | (left) "key = KEY_LEFT"
    | (bs) "key \<in> {KEY_BACKSPACE, 127, 8}" | (enter) "key \<in> {KEY_ENTER, 10, 13}"
    | (char) "32 \<le> key \<and> key \<le> 126"
    | (other) "key \<noteq> - 1" "key \<noteq> 24" "key \<noteq> 19" "key \<noteq> 15" "key \<noteq> 7"
        "\<not> (key = 9 \<or> key = KEY_RIGHT)" "key \<noteq> KEY_UP" "key \<noteq> KEY_DOWN" "key \<noteq> KEY_LEFT"
        "key \<notin> {KEY_BACKSPACE, 127, 8}" "key \<notin> {KEY_ENTER, 10, 13}"
        "\<not> (32 \<le> key \<and> key \<le> 126)"
    by blast
  then show ?thesis
  proof cases
    case idle
    from idle_check_result [OF assms(1), of api now fs] obtain e' where
      r: "handle_input (- 1) api now fs e = Inr (True, e', fs)"
      "lines e' = lines e" "cursor_y e' = cursor_y e" "cursor_x e' = cursor_x e"
      "suggestion_match_pos e' = suggestion_match_pos e \<or> suggestion_match_pos e' = 0"
      by blast
    from r(2-4) assms(1) have "cursor_inv e'" by (simp add: cursor_inv_cong [of e' e])
    moreover from r(5) assms(2) have "0 \<le> suggestion_match_pos e'" by auto
    ultimately show ?thesis using r(1) idle by blast
  next
    case quit
    show ?thesis
    proof (cases "modified e")
      case True
      with quit have "handle_input key api now fs e
          = Inr (True, set_status ''Save changes? (^S to save, ^X again to exit)'' now e, fs)"
        by (simp add: handle_input_control)
      moreover have "suggestion (set_status m now e) = suggestion e"
        "suggestion_match_pos (set_status m now e) = suggestion_match_pos e" for m
        by (simp_all add: set_status_def)
      ultimately show ?thesis using status assms(2) by auto
    next
      case False
      with quit have "handle_input key api now fs e = Inr (False, e, fs)"
        by (simp add: handle_input_control)
      with assms show ?thesis by auto
    qed
  next
    case save
    obtain e' fs' where sv: "save_file None now fs e = (e', fs')"
      by (cases "save_file None now fs e")
    with save_file_frame [of None now fs e] have f: "lines e' = lines e"
      "cursor_y e' = cursor_y e" "cursor_x e' = cursor_x e" "suggestion e' = suggestion e"
      "suggestion_match_pos e' = suggestion_match_pos e" by simp_all
    from f(1-3) assms(1) have "cursor_inv e'" by (simp add: cursor_inv_cong [of e' e])
    moreover from save sv have "handle_input key api now fs e = Inr (True, e', fs')"
      by (simp add: handle_input_control)
    ultimately show ?thesis using f(4,5) assms(2) by auto
  next
    case opn
    then have "handle_input key api now fs e
        = Inr (True, set_status ''Open: (enter filename then press Enter)'' now e, fs)"
      by (simp add: handle_input_control)
    moreover have "suggestion (set_status m now e) = suggestion e"
      "suggestion_match_pos (set_status m now e) = suggestion_match_pos e" for m
      by (simp_all add: set_status_def)
    ultimately show ?thesis using status assms(2) by auto
  next
    case toggle
    let ?e' = "if ai_enabled e
                   then (set_status ''AI autocomplete disabled'' now
                           (e\<lparr>ai_enabled := False\<rparr>))\<lparr>suggestion := []\<rparr>
                   else set_status ''AI autocomplete enabled'' now (e\<lparr>ai_enabled := True\<rparr>)"
    have "handle_input key api now fs e = Inr (True, ?e', fs)"
      using toggle by (simp only: handle_input_toggle)
    moreover have "cursor_inv ?e'" using assms(1) by (simp add: cursor_inv_def set_status_def)
    moreover have "0 \<le> suggestion_match_pos ?e'" using assms(2) by (simp add: set_status_def)
    moreover have "suggestion ?e' = suggestion e \<or> suggestion ?e' = []"
      by (simp add: set_status_def)
    ultimately show ?thesis by blast
  next
    case accept
    show ?thesis
    proof (cases "suggestion e = []")
      case True
      show ?thesis
      proof (cases "key = KEY_RIGHT")
        case True
        with \<open>suggestion e = []\<close> accept have "handle_input key api now fs e
            = ebind (move_cursor 0 1 e) (\<lambda>e'. Inr (True, e', fs))"
          by (simp add: handle_input_accept)
        with moved [of 0 1] show ?thesis by auto
      next
        case False
        with \<open>suggestion e = []\<close> accept have "handle_input key api now fs e = Inr (True, e, fs)"
          by (simp add: handle_input_accept)
        with assms show ?thesis by auto
      qed
    next
      case False
      from accept_suggestion_result [OF assms(1)] obtain e' where
        a: "accept_suggestion e = Inr e'" "cursor_inv e'"
        "suggestion e' = suggestion e \<or> suggestion e' = []"
        "suggestion_match_pos e' = suggestion_match_pos e \<or> suggestion_match_pos e' = 0"
        by blast
      from False accept a(1) have "handle_input key api now fs e = Inr (True, e', fs)"
        by (simp add: handle_input_accept ebind_def)
      moreover from a(4) assms(2) have "0 \<le> suggestion_match_pos e'" by auto
      ultimately show ?thesis using a(2,3) by blast
    qed
  next
    case up
    with moved [of "- 1" 0] show ?thesis by (auto simp add: handle_input_move)
  next
    case down
    with moved [of 1 0] show ?thesis by (auto simp add: handle_input_move)
  next
    case left
    with moved [of 0 "- 1"] show ?thesis by (auto simp add: handle_input_move)
  next
    case bs
    from delete_char_result [OF assms(1), of now] obtain e' where
      d: "delete_char now e = Inr e'" "cursor_inv e'"
      "if 0 < cursor_x e \<or> 0 < cursor_y e
       then suggestion e' = [] \<and> suggestion_match_pos e' = 0 else e' = e"
      by blast
    from d(3) assms(2) have "0 \<le> suggestion_match_pos e'"
      "suggestion e' = suggestion e \<or> suggestion e' = []"
      by (auto split: if_splits)
    moreover from d(1) have "handle_input key api now fs e = Inr (True, e', fs)"
      by (simp add: handle_input_backspace [OF bs] ebind_def)
    ultimately show ?thesis using d(2) by blast
  next
    case enter
    from insert_newline_result [OF assms(1), of now] obtain e' where
      n: "insert_newline now e = Inr e'" "cursor_inv e'"
      "suggestion e' = [] \<and> suggestion_match_pos e' = 0"
      by blast
    from n(1) have "handle_input key api now fs e = Inr (True, e', fs)"
      by (simp add: handle_input_enter [OF enter] ebind_def)
    with n(2,3) show ?thesis by auto
  next
    case char
    from insert_char_inv [OF assms, of "char_of key" now] obtain e' where
      c: "insert_char [char_of key] now e = Inr e'" "cursor_inv e'"
      "0 \<le> suggestion_match_pos e'" "suggestion e' = suggestion e \<or> suggestion e' = []"
      by blast
    from c(1) char have "handle_input key api now fs e = Inr (True, e', fs)"
      by (simp add: handle_input_char ebind_def)
    with c(2-4) show ?thesis by blast
  next
    case other
    have "handle_input key api now fs e = Inr (True, e, fs)"
      using other by (simp add: handle_input_def cong: conj_cong)
    with assms show ?thesis by auto
  qed
qed

text \<open>
  Claim C4. The code has no worker and no generation counter: a fetch is issued and its
  result applied inside one idle check, so a result is never applied to a buffer other than
  the one it was requested for. On every valid state: a key other than the idle check (every
  edit is one) returns and installs no result, the suggestion text after it being what it
  was or empty; an idle check returns with the lines, the cursor and the time of the last
  edit as they were, and the suggestion becomes the answer with nothing matched exactly when
  AI is enabled, the suggestion was empty, no request was marked in flight, the pause after
  a first edit has elapsed, a client exists, the context of this buffer is not blank, the
  minimum interval since the last provider call has passed and the cleaned answer for that
  context is not empty; otherwise the state of the suggestion is what it was.
\<close>

theorem completion_applied_only_fresh:
  assumes "cursor_inv e" and "0 \<le> suggestion_match_pos e"
  shows "(key \<noteq> - 1 \<longrightarrow>
           (\<exists>running e' fs'. handle_input key api now fs e = Inr (running, e', fs')
              \<and> (suggestion e' = suggestion e \<or> suggestion e' = [])))
    \<and> (\<exists>e' ctx. handle_input (- 1) api now fs e = Inr (True, e', fs)
        \<and> get_context_before_cursor 500 e = Inr ctx
        \<and> lines e' = lines e \<and> cursor_y e' = cursor_y e \<and> cursor_x e' = cursor_x e
        \<and> last_input_time e' = last_input_time e
        \<and> suggestion_state_of e' =
            (if ai_enabled e \<and> suggestion e = [] \<and> \<not> requesting_completion e
                \<and> now - last_input_time e > real_of_int (pause_delay_ms e) / 1000
                \<and> last_input_time e > 0
                \<and> client_available (ai_completer e) \<and> py_strip ctx \<noteq> []
                \<and> min_request_interval \<le> now - last_request_time (ai_completer e)
                \<and> cleaned_answer api ctx \<noteq> []
             then Active (cleaned_answer api ctx) 0 else suggestion_state_of e))"
proof (intro conjI impI)
  assume "key \<noteq> - 1"
  with handle_input_keeps_valid [OF assms, of key api now fs]
  show "\<exists>running e' fs'. handle_input key api now fs e = Inr (running, e', fs')
              \<and> (suggestion e' = suggestion e \<or> suggestion e' = [])"
    by blast
next
  from idle_check_result [OF assms(1), of api now fs]
  show "\<exists>e' ctx. handle_input (- 1) api now fs e = Inr (True, e', fs)
        \<and> get_context_before_cursor 500 e = Inr ctx
        \<and> lines e' = lines e \<and> cursor_y e' = cursor_y e \<and> cursor_x e' = cursor_x e
        \<and> last_input_time e' = last_input_time e
        \<and> suggestion_state_of e' =
            (if ai_enabled e \<and> suggestion e = [] \<and> \<not> requesting_completion e
                \<and> now - last_input_time e > real_of_int (pause_delay_ms e) / 1000
                \<and> last_input_time e > 0
                \<and> client_available (ai_completer e) \<and> py_strip ctx \<noteq> []
                \<and> min_request_interval \<le> now - last_request_time (ai_completer e)
                \<and> cleaned_answer api ctx \<noteq> []
             then Active (cleaned_answer api ctx) 0 else suggestion_state_of e)"
    by blast
qed

lemma cleaned_new: "cleaned_answer provider_new ''Hi'' = ''new''"
  by (simp add: cleaned_answer_def provider_new_def strip_new)

theorem completion_applied_only_fresh_witness:
  "cursor_inv typed_at_1 \<and> 0 \<le> suggestion_match_pos typed_at_1
   \<and> (\<exists>running e' fs'. handle_input 120 provider_new 2 empty_fs typed_at_1 = Inr (running, e', fs')
         \<and> (suggestion e' = suggestion typed_at_1 \<or> suggestion e' = []))
   \<and> (\<exists>e'. handle_input (- 1) provider_new 2 empty_fs typed_at_1 = Inr (True, e', empty_fs)
         \<and> lines e' = [''Hi''] \<and> cursor_y e' = 0 \<and> cursor_x e' = 2
         \<and> last_input_time e' = 1
         \<and> suggestion_state_of e' = Active ''new'' 0)"
proof -
  have h: "cursor_inv typed_at_1" "0 \<le> suggestion_match_pos typed_at_1"
    by (simp_all add: cursor_inv_def typed_at_1_def editor0_def)
  have p: "ai_enabled typed_at_1" "suggestion typed_at_1 = []"
    "\<not> requesting_completion typed_at_1" "client_available (ai_completer typed_at_1)"
    "last_request_time (ai_completer typed_at_1) = 0" "pause_delay_ms typed_at_1 = 200"
    "last_input_time typed_at_1 = 1" "lines typed_at_1 = [''Hi'']"
    "cursor_y typed_at_1 = 0" "cursor_x typed_at_1 = 2"
    by (simp_all add: typed_at_1_def editor0_def)
  from completion_applied_only_fresh [OF h, of 120 provider_new 2 empty_fs]
  have 1: "\<exists>running e' fs'. handle_input 120 provider_new 2 empty_fs typed_at_1
             = Inr (running, e', fs')
         \<and> (suggestion e' = suggestion typed_at_1 \<or> suggestion e' = [])"
    by simp
  from completion_applied_only_fresh [OF h, of "- 1" provider_new 2 empty_fs]
  have 2: "\<exists>e'. handle_input (- 1) provider_new 2 empty_fs typed_at_1 = Inr (True, e', empty_fs)
         \<and> lines e' = [''Hi''] \<and> cursor_y e' = 0 \<and> cursor_x e' = 2
         \<and> last_input_time e' = 1
         \<and> suggestion_state_of e' = Active ''new'' 0"
    by (simp add: p hi_context strip_hi cleaned_new min_request_interval_def)
  from h 1 2 show ?thesis by simp
qed

section \<open>Debounce\<close>








end
